theory Spec2Isabelle
  imports Main
begin

section \<open>Call Graph Explorer: the client's request helper, views and state\<close>

text \<open>
  The development embeds the JavaScript client of the call graph explorer: the
  \<^verbatim>\<open>request\<close> helper of the API module, the \<^verbatim>\<open>SourceView\<close> component, the
  \<^verbatim>\<open>nodePaint\<close> callback, and the state of the \<^verbatim>\<open>App\<close> component together with
  its two asynchronous activities, the debounced search effect and \<^verbatim>\<open>loadGraph\<close>.
  JavaScript values that may be \<^verbatim>\<open>undefined\<close> or \<^verbatim>\<open>null\<close> are options; a rejected
  promise is the left injection of a sum.
\<close>

subsection \<open>The request helper\<close>

text \<open>
  What \<^verbatim>\<open>fetch\<close> resolves to: the numeric status, the body as \<^verbatim>\<open>res.text()\<close> gives
  it, and the outcome of \<^verbatim>\<open>res.json()\<close>, which rejects with a \<^verbatim>\<open>SyntaxError\<close>
  (here the left injection, holding the error's message) when the body is not JSON.
\<close>

record 'j response =
  status :: nat
  body :: string
  json :: "string + 'j"

text \<open>\<^verbatim>\<open>res.ok\<close> of the Fetch API: the status is in the range 200 to 299.\<close>

definition ok :: "'j response \<Rightarrow> bool" where
  "ok res = (200 \<le> status res \<and> status res \<le> 299)"

datatype error = Error string | SyntaxError string

fun message :: "error \<Rightarrow> string" where
  "message (Error m) = m"
| "message (SyntaxError m) = m"

text \<open>A number in a template literal: its decimal digits.\<close>

definition digit :: "nat \<Rightarrow> char" where
  "digit d = ''0123456789'' ! (d mod 10)"

fun string_of_nat :: "nat \<Rightarrow> string" where
  "string_of_nat n =
     (if n < 10 then [digit n] else string_of_nat (n div 10) @ [digit (n mod 10)])"

declare string_of_nat.simps [simp del]

text \<open>Reading a decimal numeral back, to say what the digits of a status denote.\<close>

definition nat_of_string :: "string \<Rightarrow> nat" where
  "nat_of_string cs = foldl (\<lambda>a c. 10 * a + (of_char c - 48)) 0 cs"

text \<open>
  \<^verbatim>\<open>
  async function request(path) {
    const res = await fetch(`${API_BASE}${path}`);
    if (!res.ok) {
      const text = await res.text();
      throw new Error(text || `Request failed: ${res.status}`);
    }
    return res.json();
  }
  \<close>
  The model starts from the response.
\<close>

definition request :: "'j response \<Rightarrow> error + 'j" where
  "request res =
     (if \<not> ok res then
        Inl (Error (if body res \<noteq> [] then body res
                    else ''Request failed: '' @ string_of_nat (status res)))
      else (case json res of Inl m \<Rightarrow> Inl (SyntaxError m) | Inr j \<Rightarrow> Inr j))"

subsection \<open>Nodes, edges and the graph held by the component\<close>

record node =
  node_id :: string
  name :: "string option"
  package :: "string option"
  node_file :: "string option"
  line :: "int option"

record edge =
  edge_source :: string
  edge_target :: string

record link =
  link_source :: string
  link_target :: string

record graph =
  nodes :: "node list"
  links :: "link list"

text \<open>The nodes handed to the renderer: \<^verbatim>\<open>{ ...node, isSelected: selected?.id === node.id }\<close>.\<close>

record gnode = node +
  isSelected :: bool

text \<open>\<^verbatim>\<open>selected?.id\<close>\<close>

definition selected_id :: "node option \<Rightarrow> string option" where
  "selected_id sel = map_option node_id sel"

definition graphNodes :: "graph \<Rightarrow> node option \<Rightarrow> gnode list" where
  "graphNodes g sel =
     map (\<lambda>n. node.extend n \<lparr>isSelected = (selected_id sel = Some (node_id n))\<rparr>) (nodes g)"

subsection \<open>nodePaint\<close>

text \<open>\<^verbatim>\<open>Array.prototype.some\<close>\<close>

primrec some :: "('a \<Rightarrow> bool) \<Rightarrow> 'a list \<Rightarrow> bool" where
  "some p [] = False"
| "some p (x # xs) = (p x \<or> some p xs)"

text \<open>
  \<^verbatim>\<open>
  const isCaller = graph.links.some((link) => link.target === node.id && link.source === selected?.id);
  const isCallee = graph.links.some((link) => link.source === selected?.id && link.target === node.id);
  \<close>
\<close>

definition isCaller :: "graph \<Rightarrow> node option \<Rightarrow> gnode \<Rightarrow> bool" where
  "isCaller g sel n =
     some (\<lambda>link. link_target link = node_id n \<and> Some (link_source link) = selected_id sel) (links g)"

definition isCallee :: "graph \<Rightarrow> node option \<Rightarrow> gnode \<Rightarrow> bool" where
  "isCallee g sel n =
     some (\<lambda>link. Some (link_source link) = selected_id sel \<and> link_target link = node_id n) (links g)"

text \<open>
  What \<^verbatim>\<open>nodePaint\<close> draws for a node, as far as it depends on the graph and the
  selection: the fill colour, the radius of the disc and the label text
  (\<^verbatim>\<open>node.name || node.id\<close>). The font size and the label box, which depend on the zoom
  scale only, are left out.
\<close>

record paint =
  color :: string
  radius :: nat
  label :: string

definition nodePaint :: "graph \<Rightarrow> node option \<Rightarrow> gnode \<Rightarrow> paint" where
  "nodePaint g sel n =
     \<lparr>color = (if isSelected n then ''#ffd66b''
               else if isCaller g sel n then ''#ff8f6b''
               else if isCallee g sel n then ''#6bf7b0''
               else ''#6cc2ff''),
      radius = (if isSelected n then 10 else 6),
      label = (case name n of Some l \<Rightarrow> if l \<noteq> [] then l else node_id n
               | None \<Rightarrow> node_id n)\<rparr>"

subsection \<open>SourceView\<close>

text \<open>\<^verbatim>\<open>content.split('\n')\<close>: the pieces between the newlines, the empty ones too.\<close>

fun split_nl :: "string \<Rightarrow> string list" where
  "split_nl [] = [[]]"
| "split_nl (c # cs) =
     (if c = CHR 0x0A then [] # split_nl cs
      else (case split_nl cs of [] \<Rightarrow> [[c]] | l # ls \<Rightarrow> (c # l) # ls))"

text \<open>The inverse of the split, \<^verbatim>\<open>lines.join('\n')\<close>, to say what the lines of a text are.\<close>

fun join_nl :: "string list \<Rightarrow> string" where
  "join_nl [] = []"
| "join_nl [l] = l"
| "join_nl (l # ls) = l @ CHR 0x0A # join_nl ls"

record code_line =
  code_no :: nat
  is_highlight :: bool
  code_text :: string

datatype view = Empty string | Code "code_line list"

text \<open>
  \<^verbatim>\<open>
  function SourceView({ content, highlightLine }) {
    if (!content) {
      return <div className="empty">Select a function to view source.</div>;
    }
    const lines = content.split('\n');
    return (
      <pre className="code">
        {lines.map((line, idx) => {
          const lineNumber = idx + 1;
          const isHighlight = highlightLine === lineNumber;
          return (
            <div key={lineNumber} className={`code-line ${isHighlight ? 'is-highlight' : ''}`}>
              <span className="code-no">{lineNumber}</span>
              <span className="code-text">{line || ' '}</span>
            </div>
          );
        })}
      </pre>
    );
  }
  \<close>
\<close>

definition render_line :: "int option \<Rightarrow> nat \<times> string \<Rightarrow> code_line" where
  "render_line highlightLine p =
     (let lineNumber = fst p + 1 in
      \<lparr>code_no = lineNumber,
       is_highlight = (highlightLine = Some (int lineNumber)),
       code_text = (if snd p \<noteq> [] then snd p else '' '')\<rparr>)"

definition SourceView :: "string option \<Rightarrow> int option \<Rightarrow> view" where
  "SourceView content highlightLine =
     (case content of
        None \<Rightarrow> Empty ''Select a function to view source.''
      | Some c \<Rightarrow>
          if c = [] then Empty ''Select a function to view source.''
          else Code (map (render_line highlightLine) (enumerate 0 (split_nl c))))"

subsection \<open>The state of the App component\<close>

text \<open>
  The responses of the three endpoints, as \<^verbatim>\<open>request\<close> resolves them:
  \<^verbatim>\<open>{ results }\<close> of a search (\<^verbatim>\<open>data.results || []\<close> reads a missing list as empty),
  \<^verbatim>\<open>{ root, nodes, edges }\<close> of a neighbourhood and \<^verbatim>\<open>{ content }\<close> of a source file.
\<close>

record search_data =
  data_results :: "node list option"

record subgraph =
  root :: "node option"
  data_nodes :: "node list"
  edges :: "edge list"

record source_data =
  content :: string

text \<open>
  \<^verbatim>\<open>
  const [query, setQuery] = useState('');
  const [results, setResults] = useState([]);
  const [selected, setSelected] = useState(null);
  const [graph, setGraph] = useState({ nodes: [], links: [] });
  const [source, setSource] = useState(null);
  const [loading, setLoading] = useState(false);
  const [depth, setDepth] = useState(2);
  const [limit, setLimit] = useState(60);
  const [error, setError] = useState('');
  \<close>
\<close>

record app =
  query :: string
  results :: "node list"
  selected :: "node option"
  graph :: graph
  source :: "source_data option"
  loading :: bool
  depth :: int
  limit :: int
  error :: string

text \<open>
  One run of the search effect: the \<^verbatim>\<open>active\<close> flag of its closure and the query it
  captured. Its timeout is an entry of \<open>timers\<close>, keyed by the run.
\<close>

record run =
  active :: bool
  run_query :: string

text \<open>
  One call of \<^verbatim>\<open>loadGraph\<close>: suspended at \<^verbatim>\<open>await fetchSubgraph(functionId, depth, limit)\<close>,
  suspended at \<^verbatim>\<open>await fetchSource(data.root.file)\<close>, or returned.
\<close>

datatype call = AwaitSubgraph string int int | AwaitSource string | Returned

text \<open>
  The component's state together with what the event loop holds for it: the clock, the
  runs of the search effect (the last one is the current one), the pending timeouts
  (deadline and run, in the order they were set), the runs whose search request awaits
  its response, the search requests sent so far (time and query), and the calls of
  \<^verbatim>\<open>loadGraph\<close>.
\<close>

record world = app +
  now :: nat
  runs :: "run list"
  timers :: "(nat \<times> nat) list"
  inflight :: "nat list"
  requests :: "(nat \<times> string) list"
  calls :: "call list"

text \<open>The component as mounted at time 0: the search effect has run once, for the empty query.\<close>

definition init :: world where
  "init =
     \<lparr>query = [], results = [], selected = None, graph = \<lparr>nodes = [], links = []\<rparr>,
      source = None, loading = False, depth = 2, limit = 60, error = [],
      now = 0, runs = [\<lparr>active = True, run_query = []\<rparr>], timers = [(250, 0)],
      inflight = [], requests = [], calls = []\<rparr>"

subsection \<open>The search effect\<close>

text \<open>
  \<^verbatim>\<open>
  useEffect(() => {
    let active = true;
    const handle = setTimeout(() => {
      searchFunctions(query)
        .then((data) => {
          if (!active) return;
          setResults(data.results || []);
        })
        .catch((err) => {
          if (!active) return;
          setError(err.message);
        });
    }, 250);
    return () => {
      active = false;
      clearTimeout(handle);
    };
  }, [query]);
  \<close>
  The cleanup of the current run, then the body of the effect for the new query.
\<close>

definition clearTimeout :: "nat \<Rightarrow> (nat \<times> nat) list \<Rightarrow> (nat \<times> nat) list" where
  "clearTimeout i ts = filter (\<lambda>t. snd t \<noteq> i) ts"

definition cleanup :: "world \<Rightarrow> world" where
  "cleanup s =
     (let i = length (runs s) - 1 in
      s\<lparr>runs := (if i < length (runs s) then (runs s)[i := (runs s ! i)\<lparr>active := False\<rparr>]
                  else runs s),
        timers := clearTimeout i (timers s)\<rparr>)"

definition effect :: "world \<Rightarrow> world" where
  "effect s =
     s\<lparr>runs := runs s @ [\<lparr>active = True, run_query = query s\<rparr>],
       timers := timers s @ [(now s + 250, length (runs s))]\<rparr>"

text \<open>
  \<^verbatim>\<open>onChange={(e) => setQuery(e.target.value)}\<close>: the effect depends on \<^verbatim>\<open>[query]\<close>, so
  it runs again only when the value differs from the current one.
\<close>

definition setQuery :: "string \<Rightarrow> world \<Rightarrow> world" where
  "setQuery q s = (if q = query s then s else effect ((cleanup s)\<lparr>query := q\<rparr>))"

text \<open>The timeout of run \<open>i\<close> fires: \<^verbatim>\<open>searchFunctions(query)\<close> is sent.\<close>

definition timerFired :: "nat \<Rightarrow> world \<Rightarrow> world" where
  "timerFired i s =
     (if i \<in> set (map snd (timers s)) \<and> i < length (runs s) then
        s\<lparr>timers := clearTimeout i (timers s),
          inflight := inflight s @ [i],
          requests := requests s @ [(now s, run_query (runs s ! i))]\<rparr>
      else s)"

definition searchResolved :: "nat \<Rightarrow> search_data \<Rightarrow> world \<Rightarrow> world" where
  "searchResolved i data s =
     (if i \<in> set (inflight s) \<and> i < length (runs s) then
        (let s' = s\<lparr>inflight := remove1 i (inflight s)\<rparr> in
         if \<not> active (runs s ! i) then s'
         else s'\<lparr>results := (case data_results data of Some r \<Rightarrow> r | None \<Rightarrow> [])\<rparr>)
      else s)"

definition searchRejected :: "nat \<Rightarrow> error \<Rightarrow> world \<Rightarrow> world" where
  "searchRejected i err s =
     (if i \<in> set (inflight s) \<and> i < length (runs s) then
        (let s' = s\<lparr>inflight := remove1 i (inflight s)\<rparr> in
         if \<not> active (runs s ! i) then s'
         else s'\<lparr>error := message err\<rparr>)
      else s)"

subsection \<open>loadGraph\<close>

text \<open>
  \<^verbatim>\<open>
  const loadGraph = async (functionId) => {
    setLoading(true);
    setError('');
    try {
      const data = await fetchSubgraph(functionId, depth, limit);
      const links = data.edges.map((edge) => ({
        source: edge.source,
        target: edge.target,
      }));
      setGraph({ nodes: data.nodes, links });
      setSelected(data.root);
      if (data.root?.file) {
        const sourceData = await fetchSource(data.root.file);
        setSource(sourceData);
      } else {
        setSource(null);
      }
    } catch (err) {
      setError(err.message);
    } finally {
      setLoading(false);
    }
  };
  \<close>
  A call runs in up to three pieces, one per \<^verbatim>\<open>await\<close>: from the call to the first
  request, from the neighbourhood's response to the source request or the end, and
  from the source's response to the end. Call \<open>k\<close> is the \<open>k\<close>-th call made.
\<close>

definition loadGraph :: "string \<Rightarrow> world \<Rightarrow> world" where
  "loadGraph functionId s =
     s\<lparr>loading := True, error := [],
       calls := calls s @ [AwaitSubgraph functionId (depth s) (limit s)]\<rparr>"

text \<open>\<^verbatim>\<open>data.root?.file\<close>, and whether it is truthy: present and not the empty string.\<close>

definition root_file :: "subgraph \<Rightarrow> string option" where
  "root_file data = (case root data of None \<Rightarrow> None | Some r \<Rightarrow> node_file r)"

definition to_links :: "edge list \<Rightarrow> link list" where
  "to_links es = map (\<lambda>edge. \<lparr>link_source = edge_source edge, link_target = edge_target edge\<rparr>) es"

definition subgraphResolved :: "nat \<Rightarrow> subgraph \<Rightarrow> world \<Rightarrow> world" where
  "subgraphResolved k data s =
     (if k < length (calls s) then
        (case calls s ! k of
           AwaitSubgraph functionId d l \<Rightarrow>
             (let s' = s\<lparr>graph := \<lparr>nodes = data_nodes data, links = to_links (edges data)\<rparr>,
                         selected := root data\<rparr>
              in (case root_file data of
                    Some f \<Rightarrow>
                      if f \<noteq> [] then s'\<lparr>calls := (calls s)[k := AwaitSource f]\<rparr>
                      else s'\<lparr>source := None, loading := False,
                              calls := (calls s)[k := Returned]\<rparr>
                  | None \<Rightarrow>
                      s'\<lparr>source := None, loading := False,
                         calls := (calls s)[k := Returned]\<rparr>))
         | _ \<Rightarrow> s)
      else s)"

definition subgraphRejected :: "nat \<Rightarrow> error \<Rightarrow> world \<Rightarrow> world" where
  "subgraphRejected k err s =
     (if k < length (calls s) then
        (case calls s ! k of
           AwaitSubgraph functionId d l \<Rightarrow>
             s\<lparr>error := message err, loading := False, calls := (calls s)[k := Returned]\<rparr>
         | _ \<Rightarrow> s)
      else s)"

definition sourceResolved :: "nat \<Rightarrow> source_data \<Rightarrow> world \<Rightarrow> world" where
  "sourceResolved k sourceData s =
     (if k < length (calls s) then
        (case calls s ! k of
           AwaitSource f \<Rightarrow>
             s\<lparr>source := Some sourceData, loading := False,
               calls := (calls s)[k := Returned]\<rparr>
         | _ \<Rightarrow> s)
      else s)"

definition sourceRejected :: "nat \<Rightarrow> error \<Rightarrow> world \<Rightarrow> world" where
  "sourceRejected k err s =
     (if k < length (calls s) then
        (case calls s ! k of
           AwaitSource f \<Rightarrow>
             s\<lparr>error := message err, loading := False, calls := (calls s)[k := Returned]\<rparr>
         | _ \<Rightarrow> s)
      else s)"

text \<open>
  \<^verbatim>\<open>
  const onSelectResult = (item) => { loadGraph(item.id); };
  const onNodeClick = (node) => { if (!node?.id) return; loadGraph(node.id); };
  \<close>
\<close>

definition onSelectResult :: "node \<Rightarrow> world \<Rightarrow> world" where
  "onSelectResult item s = loadGraph (node_id item) s"

definition onNodeClick :: "gnode option \<Rightarrow> world \<Rightarrow> world" where
  "onNodeClick n s =
     (case n of None \<Rightarrow> s
      | Some nd \<Rightarrow> if node_id nd = [] then s else loadGraph (node_id nd) s)"

text \<open>What the source panel shows: \<^verbatim>\<open><SourceView content={source?.content} highlightLine={selected?.line} />\<close>.\<close>

definition source_panel :: "world \<Rightarrow> view" where
  "source_panel s =
     SourceView (map_option content (source s))
       (case selected s of None \<Rightarrow> None | Some n \<Rightarrow> line n)"

subsection \<open>The event loop\<close>

datatype event =
    SetQuery string
  | TimerFired nat
  | SearchResolved nat search_data
  | SearchRejected nat error
  | LoadGraph string
  | SubgraphResolved nat subgraph
  | SubgraphRejected nat error
  | SourceResolved nat source_data
  | SourceRejected nat error

fun step :: "event \<Rightarrow> world \<Rightarrow> world" where
  "step (SetQuery q) s = setQuery q s"
| "step (TimerFired i) s = timerFired i s"
| "step (SearchResolved i data) s = searchResolved i data s"
| "step (SearchRejected i err) s = searchRejected i err s"
| "step (LoadGraph functionId) s = loadGraph functionId s"
| "step (SubgraphResolved k data) s = subgraphResolved k data s"
| "step (SubgraphRejected k err) s = subgraphRejected k err s"
| "step (SourceResolved k sourceData) s = sourceResolved k sourceData s"
| "step (SourceRejected k err) s = sourceRejected k err s"

definition exec :: "event list \<Rightarrow> world \<Rightarrow> world" where
  "exec evs s = fold step evs s"

text \<open>
  The clock moves to time \<open>t\<close>: every timeout due by then fires at its deadline, in the
  order the timeouts were set.
\<close>

definition fire :: "nat \<times> nat \<Rightarrow> world \<Rightarrow> world" where
  "fire tm s = timerFired (snd tm) (s\<lparr>now := fst tm\<rparr>)"

definition advance :: "nat \<Rightarrow> world \<Rightarrow> world" where
  "advance t s = (fold fire (filter (\<lambda>tm. fst tm \<le> t) (timers s)) s)\<lparr>now := t\<rparr>"

text \<open>Input events of the search box, each with the time it arrives.\<close>

fun play :: "(nat \<times> string) list \<Rightarrow> world \<Rightarrow> world" where
  "play [] s = s"
| "play (e # es) s = play es (setQuery (snd e) (advance (fst e) s))"

text \<open>
  A burst: every event arrives less than the debounce delay of 250 after the one
  before it, and changes the text of the search box.
\<close>

fun burst :: "nat \<Rightarrow> string \<Rightarrow> (nat \<times> string) list \<Rightarrow> bool" where
  "burst t q [] = True"
| "burst t q (e # es) = (t \<le> fst e \<and> fst e < t + 250 \<and> snd e \<noteq> q \<and> burst (fst e) (snd e) es)"

text \<open>Only the current run of the search effect may have a timeout pending.\<close>

definition current_timers :: "world \<Rightarrow> bool" where
  "current_timers s = (runs s \<noteq> [] \<and> list_all (\<lambda>tm. snd tm = length (runs s) - 1) (timers s))"

text \<open>The state between two events of a burst: one timeout pending, of the current run.\<close>

definition pending :: "world \<Rightarrow> nat \<Rightarrow> string \<Rightarrow> bool" where
  "pending s t q =
     (runs s \<noteq> [] \<and> timers s = [(t + 250, length (runs s) - 1)]
      \<and> run_query (last (runs s)) = q \<and> query s = q)"

text \<open>
  The invariant a neighbourhood is meant to satisfy: the source and the target of every
  edge are the identifiers of nodes of the neighbourhood.
\<close>

definition edges_closed :: "subgraph \<Rightarrow> bool" where
  "edges_closed data =
     list_all (\<lambda>e. edge_source e \<in> set (map node_id (data_nodes data))
                 \<and> edge_target e \<in> set (map node_id (data_nodes data))) (edges data)"

subsection \<open>Example data\<close>

abbreviation node_A :: node where
  "node_A \<equiv> \<lparr>node_id = ''A'', name = Some ''Gather'', package = Some ''prometheus'',
      node_file = Some ''a.go'', line = Some 2\<rparr>"

abbreviation node_B :: node where
  "node_B \<equiv> \<lparr>node_id = ''B'', name = Some ''Describe'', package = Some ''prometheus'',
      node_file = Some ''b.go'', line = Some 1\<rparr>"

abbreviation subgraph_A :: subgraph where
  "subgraph_A \<equiv> \<lparr>root = Some node_A, data_nodes = [node_A, node_B],
      edges = [\<lparr>edge_source = ''A'', edge_target = ''B''\<rparr>]\<rparr>"

abbreviation subgraph_B :: subgraph where
  "subgraph_B \<equiv> \<lparr>root = Some node_B, data_nodes = [node_B, node_A],
      edges = [\<lparr>edge_source = ''A'', edge_target = ''B''\<rparr>]\<rparr>"

abbreviation subgraph_dangling :: subgraph where
  "subgraph_dangling \<equiv> \<lparr>root = Some node_A, data_nodes = [node_A],
      edges = [\<lparr>edge_source = ''A'', edge_target = ''ghost''\<rparr>]\<rparr>"

text \<open>
  Two selections made before any response, with the responses for \<open>A\<close> arriving last,
  and with the responses for \<open>B\<close> arriving last; and a selection of \<open>B\<close>, made while
  the source of \<open>A\<close> is shown, whose source request fails.
\<close>

abbreviation A_resolves_last :: "event list" where
  "A_resolves_last \<equiv>
     [LoadGraph ''A'', LoadGraph ''B'',
      SubgraphResolved 1 subgraph_B, SourceResolved 1 \<lparr>content = ''package b''\<rparr>,
      SubgraphResolved 0 subgraph_A, SourceResolved 0 \<lparr>content = ''package a''\<rparr>]"

abbreviation B_resolves_last :: "event list" where
  "B_resolves_last \<equiv>
     [LoadGraph ''A'', LoadGraph ''B'',
      SubgraphResolved 0 subgraph_A, SourceResolved 0 \<lparr>content = ''package a''\<rparr>,
      SubgraphResolved 1 subgraph_B, SourceResolved 1 \<lparr>content = ''package b''\<rparr>]"

abbreviation source_of_B_fails :: "event list" where
  "source_of_B_fails \<equiv>
     [LoadGraph ''A'', SubgraphResolved 0 subgraph_A,
      SourceResolved 0 \<lparr>content = ''package a''\<rparr>,
      LoadGraph ''B'', SubgraphResolved 1 subgraph_B,
      SourceRejected 1 (Error ''Request failed: 500'')]"

abbreviation caller_x :: node where
  "caller_x \<equiv> \<lparr>node_id = ''x'', name = Some ''main'', package = None,
      node_file = None, line = None\<rparr>"

abbreviation selected_s :: node where
  "selected_s \<equiv> \<lparr>node_id = ''s'', name = Some ''Gather'', package = None,
      node_file = None, line = None\<rparr>"

abbreviation graph_xs :: graph where
  "graph_xs \<equiv> \<lparr>nodes = [selected_s, caller_x],
      links = [\<lparr>link_source = ''x'', link_target = ''s''\<rparr>]\<rparr>"

abbreviation not_found :: "unit response" where
  "not_found \<equiv> \<lparr>status = 404, body = ''no such function'', json = Inl ''Unexpected token''\<rparr>"

abbreviation server_error :: "unit response" where
  "server_error \<equiv> \<lparr>status = 500, body = [], json = Inl ''Unexpected end of JSON input''\<rparr>"

abbreviation success :: "unit response" where
  "success \<equiv> \<lparr>status = 200, body = ''{}'', json = Inr ()\<rparr>"

abbreviation success_html :: "unit response" where
  "success_html \<equiv> \<lparr>status = 200, body = ''<!doctype html>'', json = Inl ''Unexpected token''\<rparr>"

section \<open>Properties\<close>

subsection \<open>The request helper\<close>

lemma digit_value: "d < 10 \<Longrightarrow> (of_char (digit d) :: nat) - 48 = d"
proof -
  assume "d < 10"
  then have "d \<in> {0, 1, 2, 3, 4, 5, 6, 7, 8, 9}" by auto
  then show ?thesis by (auto simp: digit_def)
qed

lemma nat_of_string_snoc:
  "nat_of_string (cs @ [c]) = 10 * nat_of_string cs + (of_char c - 48)"
  by (simp add: nat_of_string_def)

lemma nat_of_string_of_nat: "nat_of_string (string_of_nat n) = n"
proof (induction n rule: string_of_nat.induct)
  case (1 n)
  show ?case
  proof (cases "n < 10")
    case True
    then show ?thesis
      by (simp add: string_of_nat.simps [of n] nat_of_string_def digit_value)
  next
    case False
    with 1 have "nat_of_string (string_of_nat (n div 10)) = n div 10" by simp
    with False show ?thesis
      by (simp add: string_of_nat.simps [of n] nat_of_string_snoc digit_value)
  qed
qed

text \<open>
  Claim C8, as stated, at a response with a success status whose body is not JSON:
  the status is a success status and the helper raises an error all the same, the
  \<^verbatim>\<open>SyntaxError\<close> of \<^verbatim>\<open>res.json()\<close>.
\<close>

theorem request_success_not_json:
  "ok success_html \<and> request success_html = Inl (SyntaxError ''Unexpected token'')"
  by (simp add: ok_def request_def)

text \<open>
  Claim C8, amended: for a response with a non-success status the helper raises an
  \<^verbatim>\<open>Error\<close> whose message is the body when the body is not empty, and otherwise
  \<^verbatim>\<open>Request failed: \<close> followed by the decimal digits of the status; for a success
  status it does not raise that error: it returns the body decoded as JSON, and raises
  the decoder's error when the body is not JSON.
\<close>

theorem request_status:
  fixes res :: "'j response"
  shows "(\<not> ok res \<longrightarrow>
            request res = Inl (Error (if body res \<noteq> [] then body res
               else ''Request failed: '' @ string_of_nat (status res)))
            \<and> nat_of_string (string_of_nat (status res)) = status res)
       \<and> (ok res \<longrightarrow>
            (\<forall>m. request res \<noteq> Inl (Error m))
            \<and> (\<forall>j. json res = Inr j \<longrightarrow> request res = Inr j)
            \<and> (\<forall>m. json res = Inl m \<longrightarrow> request res = Inl (SyntaxError m)))"
  by (auto simp: request_def nat_of_string_of_nat split: sum.splits)

theorem request_status_witness:
  "request not_found = Inl (Error ''no such function'')
   \<and> request server_error = Inl (Error ''Request failed: 500'')
   \<and> request success = Inr ()"
  using request_status [of not_found] request_status [of server_error]
    request_status [of success]
  by (simp add: ok_def string_of_nat.simps digit_def)

subsection \<open>SourceView\<close>

lemma split_nl_not_Nil: "split_nl cs \<noteq> []"
  by (induction cs) (auto split: list.splits)

lemma join_split_nl: "join_nl (split_nl cs) = cs"
proof (induction cs)
  case Nil
  then show ?case by simp
next
  case (Cons c cs)
  then show ?case
    using split_nl_not_Nil [of cs]
    by (cases "split_nl cs"; cases "tl (split_nl cs)") (auto split: list.splits)
qed

lemma split_nl_no_newline: "l \<in> set (split_nl cs) \<Longrightarrow> CHR 0x0A \<notin> set l"
  by (induction cs arbitrary: l) (auto split: list.splits if_splits)

text \<open>
  Claim C9: for a content that is not empty and any \<open>highlightLine\<close>, present or not,
  \<open>SourceView\<close> renders a list of lines, one for each piece of the content between
  newlines (joining the pieces with newlines gives the content back, and no piece holds
  a newline); the \<open>i\<close>-th of them, counted from 0, carries the number \<open>i + 1\<close> and the
  text of the piece (a single space for an empty piece), and is highlighted exactly
  when \<open>highlightLine\<close> is that number. So the highlighted lines are the one line
  numbered \<open>highlightLine\<close> when it is between 1 and the number of lines, and none when
  it is out of that range or absent.
\<close>

theorem SourceView_lines:
  assumes "c \<noteq> []"
  shows "\<exists>ls. SourceView (Some c) highlightLine = Code ls
     \<and> length ls = length (split_nl c)
     \<and> join_nl (split_nl c) = c
     \<and> (\<forall>l \<in> set (split_nl c). CHR 0x0A \<notin> set l)
     \<and> (\<forall>i < length ls.
           code_no (ls ! i) = i + 1
         \<and> code_text (ls ! i) = (if split_nl c ! i \<noteq> [] then split_nl c ! i else '' '')
         \<and> (is_highlight (ls ! i) \<longleftrightarrow> highlightLine = Some (int (i + 1))))
     \<and> {i. i < length ls \<and> is_highlight (ls ! i)} =
         (case highlightLine of
            None \<Rightarrow> {}
          | Some h \<Rightarrow> if 1 \<le> h \<and> h \<le> int (length ls) then {nat h - 1} else {})"
proof -
  let ?ls = "map (render_line highlightLine) (enumerate 0 (split_nl c))"
  have view: "SourceView (Some c) highlightLine = Code ?ls"
    using assms by (simp add: SourceView_def)
  have len: "length ?ls = length (split_nl c)" by simp
  have each: "\<forall>i < length ?ls.
           code_no (?ls ! i) = i + 1
         \<and> code_text (?ls ! i) = (if split_nl c ! i \<noteq> [] then split_nl c ! i else '' '')
         \<and> (is_highlight (?ls ! i) \<longleftrightarrow> highlightLine = Some (int (i + 1)))"
    by (simp add: render_line_def nth_enumerate_eq)
  have hl: "{i. i < length ?ls \<and> is_highlight (?ls ! i)} =
         (case highlightLine of
            None \<Rightarrow> {}
          | Some h \<Rightarrow> if 1 \<le> h \<and> h \<le> int (length ?ls) then {nat h - 1} else {})"
  proof (cases highlightLine)
    case None
    then show ?thesis using each by auto
  next
    case (Some h)
    have "{i. i < length ?ls \<and> is_highlight (?ls ! i)}
        = {i. i < length ?ls \<and> h = int (i + 1)}"
      using each Some by auto
    also have "\<dots> = (if 1 \<le> h \<and> h \<le> int (length ?ls) then {nat h - 1} else {})"
      by auto
    finally show ?thesis using Some by simp
  qed
  show ?thesis
    using view len each hl join_split_nl [of c] split_nl_no_newline [of _ c]
    by blast
qed

theorem SourceView_lines_witness:
  "''ab\<newline>cd'' \<noteq> []
   \<and> (\<exists>ls. SourceView (Some ''ab\<newline>cd'') (Some 2) = Code ls \<and> length ls = 2
         \<and> code_text (ls ! 1) = ''cd''
         \<and> {i. i < length ls \<and> is_highlight (ls ! i)} = {1})"
proof -
  have ne: "''ab\<newline>cd'' \<noteq> []" by simp
  have sp: "split_nl ''ab\<newline>cd'' = [''ab'', ''cd'']" by simp
  from SourceView_lines [OF ne, of "Some 2"] obtain ls where
    v: "SourceView (Some ''ab\<newline>cd'') (Some 2) = Code ls"
    and l: "length ls = length (split_nl ''ab\<newline>cd'')"
    and e: "\<forall>i < length ls. code_no (ls ! i) = i + 1
         \<and> code_text (ls ! i) =
             (if split_nl ''ab\<newline>cd'' ! i \<noteq> [] then split_nl ''ab\<newline>cd'' ! i else '' '')
         \<and> (is_highlight (ls ! i) \<longleftrightarrow> Some (2::int) = Some (int (i + 1)))"
    and h: "{i. i < length ls \<and> is_highlight (ls ! i)} =
         (case Some (2::int) of
            None \<Rightarrow> {}
          | Some h \<Rightarrow> if 1 \<le> h \<and> h \<le> int (length ls) then {nat h - 1} else {})"
    by blast
  from l sp have l2: "length ls = 2" by simp
  from e l2 sp have "code_text (ls ! 1) = ''cd''" by simp
  moreover from h l2 have "{i. i < length ls \<and> is_highlight (ls ! i)} = {1}" by simp
  ultimately show ?thesis using ne v l2 by blast
qed

text \<open>
  Claim C10: for the empty string as content \<open>SourceView\<close> renders the placeholder that
  prompts for a selection, and no list of lines: the same view as for an absent content.
\<close>

theorem SourceView_empty_content:
  "SourceView (Some []) highlightLine = Empty ''Select a function to view source.''
   \<and> SourceView (Some []) highlightLine = SourceView None highlightLine"
  by (simp add: SourceView_def)

subsection \<open>nodePaint\<close>

lemma some_iff: "some p xs \<longleftrightarrow> (\<exists>x \<in> set xs. p x)"
  by (induction xs) auto

text \<open>
  The two tests of \<open>nodePaint\<close> are the same test, for an edge from the selected node
  to the painted one. So a node is painted in one of three colours, and never in the
  colour of the third branch.
\<close>

lemma isCaller_iff_isCallee: "isCaller g sel n = isCallee g sel n"
  by (simp add: isCaller_def isCallee_def conj_commute)

lemma nodePaint_color:
  "color (nodePaint g sel n) =
     (if isSelected n then ''#ffd66b''
      else if (\<exists>l \<in> set (links g).
                 Some (link_source l) = selected_id sel \<and> link_target l = node_id n)
      then ''#ff8f6b'' else ''#6cc2ff'')"
  by (auto simp: nodePaint_def isCaller_def isCallee_def some_iff)

text \<open>
  Claim C2, at a graph whose only edge goes from the node \<open>x\<close> to the selected node \<open>s\<close>:
  \<open>x\<close> calls \<open>s\<close>, and \<open>nodePaint\<close> paints it in the default colour \<^verbatim>\<open>#6cc2ff\<close> with
  the default radius, not in the colour \<^verbatim>\<open>#ff8f6b\<close> of the caller branch.
\<close>

theorem nodePaint_caller_painted_default:
  "map (nodePaint graph_xs (Some selected_s)) (graphNodes graph_xs (Some selected_s))
   = [\<lparr>color = ''#ffd66b'', radius = 10, label = ''Gather''\<rparr>,
      \<lparr>color = ''#6cc2ff'', radius = 6, label = ''main''\<rparr>]"
  by (simp add: nodePaint_def graphNodes_def isCaller_def isCallee_def selected_id_def
      node.extend_def)

subsection \<open>loadGraph\<close>

lemmas load_defs = exec_def loadGraph_def subgraphResolved_def subgraphRejected_def
  sourceResolved_def sourceRejected_def root_file_def to_links_def

text \<open>
  Claim C1, at the selections of \<open>A\<close> and then \<open>B\<close>, both made before any response:
  when the responses for \<open>B\<close> arrive first and those for \<open>A\<close> last, every call has
  returned and the final selection, graph and source are those of \<open>A\<close>, the older
  call; the response of the older call is applied, not discarded. In the other order
  the final selection is \<open>B\<close>.
\<close>

theorem loadGraph_stale_response_applied:
  "map_option node_id (selected (exec A_resolves_last init)) = Some ''A''
   \<and> graph (exec A_resolves_last init)
     = \<lparr>nodes = [node_A, node_B], links = [\<lparr>link_source = ''A'', link_target = ''B''\<rparr>]\<rparr>
   \<and> source (exec A_resolves_last init) = Some \<lparr>content = ''package a''\<rparr>
   \<and> calls (exec A_resolves_last init) = [Returned, Returned]
   \<and> loading (exec A_resolves_last init) = False
   \<and> map_option node_id (selected (exec B_resolves_last init)) = Some ''B''"
  by (simp add: load_defs init_def)

text \<open>
  Claim C3: from any state, load the neighbourhood of \<open>a\<close> with success (the response
  \<open>data\<close>, and the source when the root has a file), then select \<open>b\<close> and let its
  neighbourhood request fail with \<open>err\<close>. After the first load the selection is the
  root of \<open>data\<close> and the graph is that of \<open>data\<close>; the failed call leaves the
  selection, the graph and the source as they were, sets the error to the message of
  \<open>err\<close> and sets \<open>loading\<close> to false.
\<close>

theorem loadGraph_failure_keeps_state:
  "let k = length (calls s0);
       s1 = exec [LoadGraph a, SubgraphResolved k data, SourceResolved k sourceData] s0;
       s2 = exec [LoadGraph b, SubgraphRejected (Suc k) err] s1
   in selected s1 = root data
    \<and> graph s1 = \<lparr>nodes = data_nodes data, links = to_links (edges data)\<rparr>
    \<and> selected s2 = selected s1 \<and> graph s2 = graph s1 \<and> source s2 = source s1
    \<and> error s2 = message err \<and> loading s2 = False"
  by (simp add: load_defs Let_def nth_append split: option.splits)

text \<open>
  Claim C4, at a selection of \<open>B\<close> made while the source of \<open>a.go\<close> is shown: the
  neighbourhood of \<open>B\<close> arrives, the request for the source of \<open>b.go\<close> fails. The
  selection is \<open>B\<close>, and the source is still the text of \<open>a.go\<close>: the source panel
  shows its line, highlighted at the line number of \<open>B\<close>, not the placeholder.
\<close>

theorem loadGraph_source_failure_keeps_old_source:
  "selected (exec source_of_B_fails init) = Some node_B
   \<and> nodes (graph (exec source_of_B_fails init)) = [node_B, node_A]
   \<and> source (exec source_of_B_fails init) = Some \<lparr>content = ''package a''\<rparr>
   \<and> source_panel (exec source_of_B_fails init)
     = Code [\<lparr>code_no = 1, is_highlight = True, code_text = ''package a''\<rparr>]
   \<and> error (exec source_of_B_fails init) = ''Request failed: 500''
   \<and> loading (exec source_of_B_fails init) = False"
  by (simp add: load_defs init_def source_panel_def SourceView_def render_line_def)

text \<open>
  Claim C5, as stated, at a neighbourhood whose edge points to a node that is not among
  its nodes: \<open>loadGraph\<close> stores the nodes and the dangling edge, selects the root and
  leaves the error empty, as for any other neighbourhood.
\<close>

theorem loadGraph_accepts_dangling_edge:
  "\<not> edges_closed subgraph_dangling
   \<and> graph (exec [LoadGraph ''A'', SubgraphResolved 0 subgraph_dangling] init)
     = \<lparr>nodes = [node_A], links = [\<lparr>link_source = ''A'', link_target = ''ghost''\<rparr>]\<rparr>
   \<and> selected (exec [LoadGraph ''A'', SubgraphResolved 0 subgraph_dangling] init) = Some node_A
   \<and> error (exec [LoadGraph ''A'', SubgraphResolved 0 subgraph_dangling] init) = []"
  by (simp add: load_defs init_def edges_closed_def)

text \<open>
  Claim C5, amended: for every neighbourhood the backend returns, also one in which the
  source or the target of an edge is not among the nodes, \<open>loadGraph\<close> stores the nodes
  and every edge, as a link with the same source and target, selects the root and sets
  no error: the client does not check the edges against the nodes.
\<close>

theorem loadGraph_stores_every_edge:
  "let s' = exec [LoadGraph f, SubgraphResolved (length (calls s)) data] s
   in graph s' = \<lparr>nodes = data_nodes data, links = to_links (edges data)\<rparr>
    \<and> map link_source (links (graph s')) = map edge_source (edges data)
    \<and> map link_target (links (graph s')) = map edge_target (edges data)
    \<and> selected s' = root data
    \<and> error s' = []"
  by (simp add: load_defs Let_def nth_append comp_def split: option.splits)

subsection \<open>The search effect\<close>

text \<open>What a change of the query, a timeout and a response do to each part of the state.\<close>

lemma setQuery_fields:
  assumes "q \<noteq> query s"
  shows "query (setQuery q s) = q"
    and "length (runs (setQuery q s)) = Suc (length (runs s))"
    and "runs (setQuery q s) ! length (runs s) = \<lparr>active = True, run_query = q\<rparr>"
    and "runs s \<noteq> [] \<Longrightarrow> \<not> active (runs (setQuery q s) ! (length (runs s) - 1))"
    and "timers (setQuery q s) =
           clearTimeout (length (runs s) - 1) (timers s) @ [(now s + 250, length (runs s))]"
    and "inflight (setQuery q s) = inflight s"
    and "requests (setQuery q s) = requests s"
    and "results (setQuery q s) = results s"
    and "now (setQuery q s) = now s"
  using assms by (simp_all add: setQuery_def cleanup_def effect_def nth_append Let_def)

lemma timerFired_fields:
  assumes "i \<in> set (map snd (timers s))" and "i < length (runs s)"
  shows "runs (timerFired i s) = runs s"
    and "timers (timerFired i s) = clearTimeout i (timers s)"
    and "inflight (timerFired i s) = inflight s @ [i]"
    and "requests (timerFired i s) = requests s @ [(now s, run_query (runs s ! i))]"
    and "results (timerFired i s) = results s"
    and "query (timerFired i s) = query s"
    and "now (timerFired i s) = now s"
  using assms by (simp_all add: timerFired_def)

lemma searchResolved_fields:
  assumes "i \<in> set (inflight s)" and "i < length (runs s)"
  shows "runs (searchResolved i d s) = runs s"
    and "inflight (searchResolved i d s) = remove1 i (inflight s)"
    and "results (searchResolved i d s) =
          (if active (runs s ! i) then (case data_results d of Some r \<Rightarrow> r | None \<Rightarrow> [])
           else results s)"
  using assms by (simp_all add: searchResolved_def Let_def)

lemma exec_Cons: "exec (e # es) s = exec es (step e s)"
  by (simp add: exec_def)

lemma exec_Nil: "exec [] s = s"
  by (simp add: exec_def)

text \<open>
  Claim C6: from any state, a search for \<open>q1\<close> is issued (the query changes to \<open>q1\<close> and
  its timeout fires), then the query changes to \<open>q2\<close> and the search for \<open>q2\<close> is
  issued, both before any response. Whichever of the two responses arrives last, the
  results are those of the response for \<open>q2\<close>; the response for \<open>q1\<close> changes nothing,
  whether it arrives after the request for \<open>q2\<close> or before it.
\<close>

theorem search_stale_response_discarded:
  assumes "q1 \<noteq> query s" and "q2 \<noteq> q1"
  shows "let i1 = length (runs s); i2 = Suc (length (runs s));
             s' = exec [SetQuery q1, TimerFired i1, SetQuery q2, TimerFired i2] s
         in requests s' = requests s @ [(now s, q1), (now s, q2)]
          \<and> results (exec [SearchResolved i2 d2, SearchResolved i1 d1] s')
              = (case data_results d2 of Some r \<Rightarrow> r | None \<Rightarrow> [])
          \<and> results (exec [SearchResolved i1 d1, SearchResolved i2 d2] s')
              = (case data_results d2 of Some r \<Rightarrow> r | None \<Rightarrow> [])
          \<and> results (exec [SearchResolved i1 d1] s') = results s
          \<and> results (exec [SetQuery q1, TimerFired i1, SetQuery q2, SearchResolved i1 d1] s)
              = results s"
proof -
  define n where "n = length (runs s)"
  define s1 where "s1 = setQuery q1 s"
  define s2 where "s2 = timerFired n s1"
  define s3 where "s3 = setQuery q2 s2"
  define s4 where "s4 = timerFired (Suc n) s3"
  note f1 = setQuery_fields [OF assms(1), folded s1_def n_def]
  have t1: "n \<in> set (map snd (timers s1))" "n < length (runs s1)"
    using f1 by simp_all
  note f2 = timerFired_fields [OF t1, folded s2_def]
  have q2: "q2 \<noteq> query s2" using f1 f2 assms(2) by simp
  have len2: "length (runs s2) = Suc n" "runs s2 \<noteq> []" using f1 f2 by auto
  note f3 = setQuery_fields [OF q2, folded s3_def, unfolded len2(1)]
  have t3: "Suc n \<in> set (map snd (timers s3))" "Suc n < length (runs s3)"
    using f3 by simp_all
  note f4 = timerFired_fields [OF t3, folded s4_def]
  have old: "\<not> active (runs s3 ! n)" using f3(4) len2 by simp
  have new: "active (runs s3 ! Suc n)" using f3(3) by simp
  have in3: "n \<in> set (inflight s3)" "n < length (runs s3)"
    using f2 f3 by simp_all
  have in4: "n \<in> set (inflight s4)" "n < length (runs s4)"
       "Suc n \<in> set (inflight s4)" "Suc n < length (runs s4)"
    using f2 f3 f4 by simp_all
  have req: "requests s4 = requests s @ [(now s, q1), (now s, q2)]"
    using f1 f2 f3 f4 by simp
  have res4: "results s4 = results s"
    using f1 f2 f3 f4 by simp
  have a: "results (searchResolved n d1 (searchResolved (Suc n) d2 s4))
      = (case data_results d2 of Some r \<Rightarrow> r | None \<Rightarrow> [])"
  proof -
    let ?t = "searchResolved (Suc n) d2 s4"
    note g = searchResolved_fields [OF in4(3,4), of d2]
    have "n \<in> set (inflight ?t)" "n < length (runs ?t)"
      using g in4 by simp_all
    from searchResolved_fields(3) [OF this, of d1] show ?thesis
      using g f4 old new by simp
  qed
  have b: "results (searchResolved (Suc n) d2 (searchResolved n d1 s4))
      = (case data_results d2 of Some r \<Rightarrow> r | None \<Rightarrow> [])"
  proof -
    let ?t = "searchResolved n d1 s4"
    note g = searchResolved_fields [OF in4(1,2), of d1]
    have "Suc n \<in> set (inflight ?t)" "Suc n < length (runs ?t)"
      using g in4 by simp_all
    from searchResolved_fields(3) [OF this, of d2] show ?thesis
      using g f4 old new by simp
  qed
  have c: "results (searchResolved n d1 s4) = results s"
    using searchResolved_fields(3) [OF in4(1,2), of d1] f4 old res4 by simp
  have d: "results (searchResolved n d1 s3) = results s"
    using searchResolved_fields(3) [OF in3, of d1] old f1 f2 f3 by simp
  show ?thesis
    using req a b c d
    by (simp add: Let_def exec_Cons exec_Nil n_def s1_def s2_def s3_def s4_def)
qed

theorem search_stale_response_discarded_witness:
  "''foo'' \<noteq> query init \<and> ''bar'' \<noteq> ''foo''
   \<and> results (exec [SearchResolved 2 \<lparr>data_results = Some [node_B]\<rparr>,
                     SearchResolved 1 \<lparr>data_results = Some [node_A]\<rparr>]
        (exec [SetQuery ''foo'', TimerFired 1, SetQuery ''bar'', TimerFired 2] init)) = [node_B]
   \<and> results (exec [SearchResolved 1 \<lparr>data_results = Some [node_A]\<rparr>,
                     SearchResolved 2 \<lparr>data_results = Some [node_B]\<rparr>]
        (exec [SetQuery ''foo'', TimerFired 1, SetQuery ''bar'', TimerFired 2] init)) = [node_B]"
proof -
  have h: "''foo'' \<noteq> query init" "''bar'' \<noteq> ''foo''" by (simp_all add: init_def)
  have n: "length (runs init) = 1" by (simp add: init_def)
  show ?thesis
    using h search_stale_response_discarded [OF h, of "\<lparr>data_results = Some [node_B]\<rparr>"
        "\<lparr>data_results = Some [node_A]\<rparr>"]
    unfolding n Let_def by (simp add: numeral_2_eq_2)
qed

subsection \<open>The debounce\<close>

lemma fire_keeps:
  "runs (fire tm s) = runs s" "query (fire tm s) = query s"
  "list_all (\<lambda>tm. snd tm = i) (timers s) \<Longrightarrow> list_all (\<lambda>tm. snd tm = i) (timers (fire tm s))"
  by (simp_all add: fire_def timerFired_def clearTimeout_def list_all_iff)

lemma fold_fire_keeps:
  "runs (fold fire tms s) = runs s \<and> query (fold fire tms s) = query s
   \<and> (list_all (\<lambda>tm. snd tm = i) (timers s)
        \<longrightarrow> list_all (\<lambda>tm. snd tm = i) (timers (fold fire tms s)))"
  by (induction tms arbitrary: s) (simp_all add: fire_keeps)

lemma advance_keeps:
  "runs (advance t s) = runs s" "query (advance t s) = query s" "now (advance t s) = t"
  "current_timers s \<Longrightarrow> current_timers (advance t s)"
  using fold_fire_keeps [of "filter (\<lambda>tm. fst tm \<le> t) (timers s)" s "length (runs s) - 1"]
  by (simp_all add: advance_def current_timers_def)

lemma clearTimeout_all: "list_all (\<lambda>tm. snd tm = i) ts \<Longrightarrow> clearTimeout i ts = []"
  by (induction ts) (simp_all add: clearTimeout_def)

lemma setQuery_pending:
  assumes "current_timers s" and "q \<noteq> query s"
  shows "pending (setQuery q s) (now s) q" and "requests (setQuery q s) = requests s"
    and "length (runs (setQuery q s)) = Suc (length (runs s))"
proof -
  note f = setQuery_fields [OF assms(2)]
  have ne: "runs (setQuery q s) \<noteq> []" using f(2) by auto
  have "last (runs (setQuery q s)) = runs (setQuery q s) ! length (runs s)"
    using f(2) ne by (simp add: last_conv_nth)
  then have l: "run_query (last (runs (setQuery q s))) = q" using f(3) by simp
  have "clearTimeout (length (runs s) - 1) (timers s) = []"
    using assms(1) by (simp add: current_timers_def clearTimeout_all)
  then have t: "timers (setQuery q s) = [(now s + 250, length (runs (setQuery q s)) - 1)]"
    using f(2,5) by simp
  show "pending (setQuery q s) (now s) q"
    using ne l t f(1) by (simp add: pending_def)
  show "requests (setQuery q s) = requests s" by (rule f(7))
  show "length (runs (setQuery q s)) = Suc (length (runs s))" by (rule f(2))
qed

lemma pending_current: "pending s t q \<Longrightarrow> current_timers s"
  by (simp add: pending_def current_timers_def)

lemma advance_early:
  assumes "pending s t q" and "t' < t + 250"
  shows "advance t' s = s\<lparr>now := t'\<rparr>"
  using assms by (simp add: advance_def pending_def)

lemma advance_due:
  assumes "pending s t q" and "t + 250 \<le> t'"
  shows "requests (advance t' s) = requests s @ [(t + 250, q)]"
    and "timers (advance t' s) = []"
proof -
  from assms(1) have ne: "runs s \<noteq> []"
    and t: "timers s = [(t + 250, length (runs s) - 1)]"
    and l: "run_query (last (runs s)) = q"
    by (simp_all add: pending_def)
  from ne l have n: "run_query (runs s ! (length (runs s) - 1)) = q"
    by (simp add: last_conv_nth)
  show "requests (advance t' s) = requests s @ [(t + 250, q)]"
    using assms(2) ne t n
    by (simp add: advance_def fire_def timerFired_def clearTimeout_def)
  show "timers (advance t' s) = []"
    using assms(2) ne t
    by (simp add: advance_def fire_def timerFired_def clearTimeout_def)
qed

lemma burst_step:
  assumes "pending s t q" and "t' < t + 250" and "q' \<noteq> q"
  shows "pending (setQuery q' (advance t' s)) t' q'"
    and "requests (setQuery q' (advance t' s)) = requests s"
    and "length (runs (setQuery q' (advance t' s))) = Suc (length (runs s))"
proof -
  have c: "current_timers (advance t' s)"
    using assms(1) by (simp add: pending_current advance_keeps)
  have q: "q' \<noteq> query (advance t' s)"
    using assms by (simp add: advance_keeps pending_def)
  show "pending (setQuery q' (advance t' s)) t' q'"
    using setQuery_pending(1) [OF c q] by (simp add: advance_keeps)
  show "requests (setQuery q' (advance t' s)) = requests s"
    using setQuery_pending(2) [OF c q] advance_early [OF assms(1,2)] by simp
  show "length (runs (setQuery q' (advance t' s))) = Suc (length (runs s))"
    using setQuery_pending(3) [OF c q] by (simp add: advance_keeps)
qed

lemma play_burst:
  assumes "pending s t q" and "burst t q es"
  shows "pending (play es s) (fst (last ((t, q) # es))) (snd (last ((t, q) # es)))
       \<and> requests (play es s) = requests s
       \<and> length (runs (play es s)) = length (runs s) + length es"
  using assms
proof (induction es arbitrary: s t q)
  case Nil
  then show ?case by simp
next
  case (Cons e es)
  from Cons.prems have e: "fst e < t + 250" "snd e \<noteq> q" and b: "burst (fst e) (snd e) es"
    by simp_all
  note st = burst_step [OF Cons.prems(1) e]
  from Cons.IH [OF st(1) b] st(2,3) show ?case by simp
qed

text \<open>
  The hypothesis on the state holds when the component is mounted, and every event
  keeps it.
\<close>

lemma current_timers_init: "current_timers init"
  by (simp add: current_timers_def init_def)

lemma current_timers_step:
  assumes "current_timers s"
  shows "current_timers (step ev s)"
proof (cases ev)
  case (SetQuery q)
  show ?thesis
  proof (cases "q = query s")
    case True
    then show ?thesis using assms SetQuery by (simp add: setQuery_def)
  next
    case False
    from setQuery_pending(1) [OF assms] False have "pending (setQuery q s) (now s) q" by simp
    then show ?thesis using SetQuery by (simp add: pending_current)
  qed
next
  case (TimerFired i)
  then show ?thesis
    using assms
    by (simp add: timerFired_def current_timers_def clearTimeout_def list_all_iff)
qed (use assms in \<open>simp_all add: current_timers_def searchResolved_def searchRejected_def
    loadGraph_def subgraphResolved_def subgraphRejected_def sourceResolved_def
    sourceRejected_def Let_def split: call.splits option.splits\<close>)

text \<open>
  Claim C7: in a state where only the current run of the search effect may have a
  timeout pending, a burst of input events arrives: the first event \<open>e\<close> changes the
  query, and each later event comes less than 250 after the one before it and changes
  the query again. Then a timeout is pending for the last event only, 250 after it,
  and the search requests sent from the arrival of the first event up to any time \<open>T\<close>
  are: none while \<open>T\<close> is less than 250 after the last event, and from then on exactly
  one, sent 250 after the last event with the last event's value.
\<close>

theorem debounce_coalescing:
  assumes "current_timers s" and "snd e \<noteq> query s" and "burst (fst e) (snd e) es"
  shows "requests (advance T (play (e # es) s)) =
           requests (advance (fst e) s) @
             (if fst (last (e # es)) + 250 \<le> T
              then [(fst (last (e # es)) + 250, snd (last (e # es)))] else [])
       \<and> timers (play (e # es) s) =
           [(fst (last (e # es)) + 250, length (runs s) + length es)]"
proof -
  let ?s1 = "setQuery (snd e) (advance (fst e) s)"
  have c: "current_timers (advance (fst e) s)"
    using assms(1) by (simp add: advance_keeps)
  have q: "snd e \<noteq> query (advance (fst e) s)"
    using assms(2) by (simp add: advance_keeps)
  have p1: "pending ?s1 (fst e) (snd e)"
    using setQuery_pending(1) [OF c q] by (simp add: advance_keeps)
  have r1: "requests ?s1 = requests (advance (fst e) s)"
    using setQuery_pending(2) [OF c q] .
  have l1: "length (runs ?s1) = Suc (length (runs s))"
    using setQuery_pending(3) [OF c q] by (simp add: advance_keeps)
  from play_burst [OF p1 assms(3)]
  have p: "pending (play es ?s1) (fst (last (e # es))) (snd (last (e # es)))"
    and r: "requests (play es ?s1) = requests (advance (fst e) s)"
    and l: "length (runs (play es ?s1)) = Suc (length (runs s)) + length es"
    using r1 l1 by simp_all
  have req: "requests (advance T (play es ?s1)) =
           requests (advance (fst e) s) @
             (if fst (last (e # es)) + 250 \<le> T
              then [(fst (last (e # es)) + 250, snd (last (e # es)))] else [])"
  proof (cases "fst (last (e # es)) + 250 \<le> T")
    case True
    then show ?thesis using advance_due(1) [OF p True] r by simp
  next
    case False
    then have "T < fst (last (e # es)) + 250" by simp
    from advance_early [OF p this] show ?thesis using r False by simp
  qed
  have tm: "timers (play es ?s1) = [(fst (last (e # es)) + 250, length (runs s) + length es)]"
    using p l by (simp add: pending_def)
  show ?thesis using req tm by simp
qed

theorem debounce_coalescing_witness:
  "current_timers init \<and> ''f'' \<noteq> query init
   \<and> burst 300 ''f'' [(350, ''fo''), (400, ''foo'')]
   \<and> requests (advance 1000 (play [(300, ''f''), (350, ''fo''), (400, ''foo'')] init))
       = [(250, []), (650, ''foo'')]
   \<and> requests (advance 649 (play [(300, ''f''), (350, ''fo''), (400, ''foo'')] init))
       = [(250, [])]"
proof -
  have c: "current_timers init" by (simp add: current_timers_def init_def)
  have q: "snd (300 :: nat, ''f'') \<noteq> query init" by (simp add: init_def)
  have b: "burst (fst (300 :: nat, ''f'')) (snd (300 :: nat, ''f'')) [(350, ''fo''), (400, ''foo'')]"
    by simp
  have r: "requests (advance 300 init) = [(250, [])]"
    by (simp add: advance_def init_def fire_def timerFired_def clearTimeout_def)
  show ?thesis
    using c q b r debounce_coalescing [OF c q b, of 1000] debounce_coalescing [OF c q b, of 649]
    by simp
qed

end
